theory Spec2Isabelle
  imports Complex_Main "HOL-Library.AList"
begin

section \<open>Shared vocabulary: sockets and the wire protocol\<close>

text \<open>
  A WebSocket has one of four ready states. A connection is identified by a number; the
  source compares sockets by reference (\<open>participant.ws === ws\<close>).
\<close>

datatype readyState = CONNECTING | OPEN | CLOSING | CLOSED

type_synonym conn = nat

text \<open>
  The values of a \<open>stepIndex\<close> or \<open>currentStep\<close> field that the model covers: an
  integer, the string \<open>"length"\<close>, and null. Both programs store and relay the field
  as it was parsed, whatever it is.
\<close>

datatype jsonIndex = Index int | LengthKey | NullIndex

text \<open>
  The values of a step id that the model covers: an integer, \<open>undefined\<close> (also what a
  message without the \<open>stepId\<close> field carries, since \<open>JSON.stringify\<close> drops a field
  whose value is undefined), and null. Inside an array \<open>JSON.stringify\<close> writes
  undefined as null.
\<close>

datatype jsId = NumId int | UndefinedId | NullId

fun jsonArrayItem :: "jsId \<Rightarrow> jsId" where
  "jsonArrayItem UndefinedId = NullId"
| "jsonArrayItem (NumId n) = NumId n"
| "jsonArrayItem NullId = NullId"

text \<open>
  The public view of a participant, as it is serialised into \<open>participant_joined\<close> and
  \<open>state_update\<close>: id, name and the completed steps as a list (\<open>Array.from\<close> of the set,
  in insertion order). Names and participant ids are strings.
\<close>

record pview =
  id_v :: string
  name_v :: string
  completedSteps_v :: "jsId list"

text \<open>
  Client-to-server messages, by their \<open>type\<close> tag. \<open>Ping\<close> is the message the client's
  heartbeat sends; \<open>OtherType\<close> is any other tag.
\<close>

datatype clientMsg =
    Join string
  | StepComplete jsId
  | StepChange jsonIndex
  | RequestState
  | Ping
  | OtherType string

text \<open>Server-to-client messages. \<open>Pong\<close> is the tag the client's \<open>onmessage\<close> tests for.\<close>

datatype serverMsg =
    Joined string jsonIndex
  | ParticipantJoined pview
  | ParticipantLeft string
  | StepCompleted string jsId
  | StepChanged jsonIndex
  | StateUpdate "pview list" jsonIndex
  | Pong

section \<open>The server (server.js)\<close>

text \<open>
  A participant object: \<open>{id, name, completedSteps: new Set(), ws}\<close>. A JavaScript
  \<open>Set\<close> keeps insertion order and no duplicates; it is a list here and \<open>setAdd\<close> is
  \<open>Set.prototype.add\<close>.
\<close>

record participant =
  id_p :: string
  name_p :: string
  completedSteps :: "jsId list"
  ws_p :: conn

definition setAdd :: "'a \<Rightarrow> 'a list \<Rightarrow> 'a list" where
  "setAdd x xs = (if x \<in> set xs then xs else xs @ [x])"

text \<open>
  \<open>workshopState\<close> together with \<open>wss.clients\<close>. \<open>participants\<close> is a \<open>Map\<close>: an
  association list in insertion order (\<open>AList.update\<close> overwrites in place or appends, as
  \<open>Map.prototype.set\<close> does; \<open>AList.delete\<close> is \<open>Map.prototype.delete\<close>). The field
  \<open>steps: []\<close> of the source is never read or written and is left out. \<open>clients\<close> lists
  the sockets of \<open>wss.clients\<close> with their ready state.
\<close>

record server =
  participants :: "(string \<times> participant) list"
  currentStep :: jsonIndex
  clients :: "(conn \<times> readyState) list"

text \<open>
  Every effect of a handler is a call of \<open>send\<close> on some socket: a handler returns the new
  state and the list of \<open>send\<close> calls it made, in order.
\<close>

type_synonym sends = "(conn \<times> serverMsg) list"

text \<open>\<open>broadcast(data, excludeWs = null)\<close>\<close>

definition broadcast :: "serverMsg \<Rightarrow> conn option \<Rightarrow> server \<Rightarrow> sends" where
  "broadcast data excludeWs s =
     map (\<lambda>client. (fst client, data))
       (filter (\<lambda>client. Some (fst client) \<noteq> excludeWs \<and> snd client = OPEN) (clients s))"

text \<open>\<open>findParticipantByWs(ws)\<close>: the first participant, in map order, bound to the socket.\<close>

fun findInValues :: "(string \<times> participant) list \<Rightarrow> conn \<Rightarrow> participant option" where
  "findInValues [] w = None"
| "findInValues (kp # ps) w = (if ws_p (snd kp) = w then Some (snd kp) else findInValues ps w)"

definition findParticipantByWs :: "server \<Rightarrow> conn \<Rightarrow> participant option" where
  "findParticipantByWs s w = findInValues (participants s) w"

text \<open>
  \<open>participant.completedSteps.add(stepId)\<close> mutates the object that \<open>findParticipantByWs\<close>
  returned, which is the one stored in the map: the first entry bound to the socket.
\<close>

fun addToFound :: "conn \<Rightarrow> jsId \<Rightarrow> (string \<times> participant) list \<Rightarrow> (string \<times> participant) list" where
  "addToFound w stepId [] = []"
| "addToFound w stepId (kp # ps) =
     (if ws_p (snd kp) = w
      then (fst kp, (snd kp)\<lparr>completedSteps := setAdd stepId (completedSteps (snd kp))\<rparr>) # ps
      else kp # addToFound w stepId ps)"

definition publicView :: "participant \<Rightarrow> pview" where
  "publicView p = \<lparr>id_v = id_p p, name_v = name_p p, completedSteps_v = map jsonArrayItem (completedSteps p)\<rparr>"

text \<open>
  \<open>handleJoin(ws, data)\<close>. The first argument is the string that this call of
  \<open>generateId()\<close> (\<open>Math.random().toString(36).substr(2, 9)\<close>) returns.
\<close>

definition handleJoin :: "string \<Rightarrow> conn \<Rightarrow> string \<Rightarrow> server \<Rightarrow> server \<times> sends" where
  "handleJoin newId w nm s =
     (let p = \<lparr>id_p = newId, name_p = nm, completedSteps = [], ws_p = w\<rparr>;
          s' = s\<lparr>participants := AList.update (id_p p) p (participants s)\<rparr>
      in (s', (w, Joined (id_p p) (currentStep s')) #
              broadcast (ParticipantJoined (publicView p)) None s'))"

definition handleStepComplete :: "conn \<Rightarrow> jsId \<Rightarrow> server \<Rightarrow> server \<times> sends" where
  "handleStepComplete w stepId s =
     (case findParticipantByWs s w of
        None \<Rightarrow> (s, [])
      | Some p \<Rightarrow>
          (let s' = s\<lparr>participants := addToFound w stepId (participants s)\<rparr>
           in (s', broadcast (StepCompleted (id_p p) stepId) None s')))"

definition handleStepChange :: "conn \<Rightarrow> jsonIndex \<Rightarrow> server \<Rightarrow> server \<times> sends" where
  "handleStepChange w stepIndex s =
     (let s' = s\<lparr>currentStep := stepIndex\<rparr>
      in (s', broadcast (StepChanged stepIndex) None s'))"

definition sendCurrentState :: "conn \<Rightarrow> server \<Rightarrow> server \<times> sends" where
  "sendCurrentState w s =
     (s, [(w, StateUpdate (map (\<lambda>kp. publicView (snd kp)) (participants s)) (currentStep s))])"

text \<open>\<open>handleMessage(ws, data)\<close>: the \<open>switch\<close> has four cases and no default.\<close>

fun handleMessage :: "string \<Rightarrow> conn \<Rightarrow> clientMsg \<Rightarrow> server \<Rightarrow> server \<times> sends" where
  "handleMessage newId w (Join nm) s = handleJoin newId w nm s"
| "handleMessage newId w (StepComplete stepId) s = handleStepComplete w stepId s"
| "handleMessage newId w (StepChange stepIndex) s = handleStepChange w stepIndex s"
| "handleMessage newId w RequestState s = sendCurrentState w s"
| "handleMessage newId w Ping s = (s, [])"
| "handleMessage newId w (OtherType t) s = (s, [])"

text \<open>
  The \<open>close\<close> handler: the loop stops at the first participant bound to the socket,
  deletes its key and broadcasts \<open>participant_left\<close>.
\<close>

fun firstKeyByWs :: "(string \<times> participant) list \<Rightarrow> conn \<Rightarrow> string option" where
  "firstKeyByWs [] w = None"
| "firstKeyByWs (kp # ps) w = (if ws_p (snd kp) = w then Some (fst kp) else firstKeyByWs ps w)"

definition onClose :: "conn \<Rightarrow> server \<Rightarrow> server \<times> sends" where
  "onClose w s =
     (case firstKeyByWs (participants s) w of
        None \<Rightarrow> (s, [])
      | Some k \<Rightarrow>
          (let s' = s\<lparr>participants := AList.delete k (participants s)\<rparr>
           in (s', broadcast (ParticipantLeft k) None s')))"

text \<open>
  The events the server process sees. A new connection enters \<open>wss.clients\<close> open; a
  closed one has left \<open>wss.clients\<close> when its \<open>close\<close> handler runs. A message carries the
  string \<open>generateId()\<close> would return while it is handled.
\<close>

datatype serverEvent =
    Connect conn
  | Message string conn clientMsg
  | Close conn

fun serverStep :: "serverEvent \<Rightarrow> server \<Rightarrow> server \<times> sends" where
  "serverStep (Connect w) s = (s\<lparr>clients := clients s @ [(w, OPEN)]\<rparr>, [])"
| "serverStep (Message newId w data) s = handleMessage newId w data s"
| "serverStep (Close w) s = onClose w (s\<lparr>clients := filter (\<lambda>client. fst client \<noteq> w) (clients s)\<rparr>)"

fun serverRun :: "serverEvent list \<Rightarrow> server \<Rightarrow> server \<times> sends" where
  "serverRun [] s = (s, [])"
| "serverRun (e # es) s =
     (let r1 = serverStep e s; r2 = serverRun es (fst r1) in (fst r2, snd r1 @ snd r2))"

definition initialServer :: server where
  "initialServer = \<lparr>participants = [], currentStep = Index 0, clients = []\<rparr>"

text \<open>The participants bound to a socket.\<close>

definition boundTo :: "server \<Rightarrow> conn \<Rightarrow> (string \<times> participant) list" where
  "boundTo s w = filter (\<lambda>kp. ws_p (snd kp) = w) (participants s)"

section \<open>The client (app.js, the WorkshopApp class with heartbeat and backoff)\<close>

record step =
  id_s :: int
  title :: string
  description :: string
  estimatedTime :: string

text \<open>
  The value of \<open>this.currentStepIndex\<close>: what a message carried, or the NaN that the
  arithmetic of the navigation buttons makes of the string \<open>"length"\<close>.
\<close>

datatype indexValue = Json jsonIndex | NotANumber

text \<open>
  The fields of \<open>WorkshopApp\<close> (the display-only \<open>workshopTitle\<close> is left out). \<open>ws\<close> is
  the ready state of the current socket, \<open>None\<close> while \<open>this.ws\<close> is null.
  \<open>reconnectTimeout\<close> is the delay of the pending reconnect timer, \<open>pingInterval\<close> says
  whether the heartbeat interval is running, \<open>lastPong\<close> is a \<open>Date.now()\<close> reading in
  milliseconds. The last four fields are undefined in the source until first assigned, which
  happens before their first use.
\<close>

record client =
  steps :: "step list"
  currentStepIndex :: indexValue
  mode :: string
  participantId :: "string option"
  participantName :: "string option"
  participants_c :: "(string \<times> pview) list"
  completedSteps_c :: "jsId list"
  ws :: "readyState option"
  reconnectAttempts :: nat
  reconnectTimeout :: "nat option"
  pingInterval :: bool
  lastPong :: int

datatype jsError = TypeError

text \<open>JavaScript truthiness of a string-or-null: null and the empty string are falsy.\<close>

definition truthy :: "string option \<Rightarrow> bool" where
  "truthy v = (v \<noteq> None \<and> v \<noteq> Some [])"

text \<open>The constructor, followed by \<open>loadSteps\<close> storing the fetched steps.\<close>

definition newClient :: "string \<Rightarrow> step list \<Rightarrow> client" where
  "newClient m stps =
     \<lparr>steps = stps, currentStepIndex = Json (Index 0), mode = m, participantId = None,
      participantName = None, participants_c = [], completedSteps_c = [], ws = None,
      reconnectAttempts = 0, reconnectTimeout = None, pingInterval = False, lastPong = 0\<rparr>"

text \<open>
  \<open>setupWebSocket()\<close>: unless the current socket is connecting, a new socket is created
  (it starts in CONNECTING) and \<open>reconnectAttempts\<close> is set to 0.
\<close>

definition setupWebSocket :: "client \<Rightarrow> client" where
  "setupWebSocket c =
     (if ws c = Some CONNECTING then c
      else c\<lparr>ws := Some CONNECTING, reconnectAttempts := 0\<rparr>)"

text \<open>\<open>scheduleReconnect()\<close>: returns the delay it schedules.\<close>

definition scheduleReconnect :: "client \<Rightarrow> client \<times> nat" where
  "scheduleReconnect c =
     (let delay = min (1000 * 2 ^ reconnectAttempts c) 30000
      in (c\<lparr>reconnectAttempts := reconnectAttempts c + 1, reconnectTimeout := Some delay\<rparr>, delay))"

text \<open>The callback of the reconnect timer.\<close>

definition reconnectTimerFires :: "client \<Rightarrow> client" where
  "reconnectTimerFires c = setupWebSocket (c\<lparr>reconnectTimeout := None\<rparr>)"

definition stopHeartbeat :: "client \<Rightarrow> client" where
  "stopHeartbeat c = c\<lparr>pingInterval := False\<rparr>"

definition startHeartbeat :: "int \<Rightarrow> client \<Rightarrow> client" where
  "startHeartbeat now c = (stopHeartbeat c)\<lparr>lastPong := now, pingInterval := True\<rparr>"

text \<open>
  The callback of the heartbeat interval, run at time \<open>now\<close>: on an open socket it sends a
  ping and, when the last pong is more than 10000 ms old, calls \<open>ws.close()\<close>, which puts
  the socket in CLOSING.
\<close>

definition heartbeatTick :: "int \<Rightarrow> client \<Rightarrow> client \<times> clientMsg list" where
  "heartbeatTick now c =
     (if ws c = Some OPEN
      then (if now - lastPong c > 10000 then c\<lparr>ws := Some CLOSING\<rparr> else c, [Ping])
      else (c, []))"

definition rejoinWorkshop :: "client \<Rightarrow> clientMsg list" where
  "rejoinWorkshop c = (case participantName c of None \<Rightarrow> [] | Some nm \<Rightarrow> [Join nm])"

text \<open>\<open>ws.onopen\<close>, run at time \<open>now\<close> when the socket has become OPEN.\<close>

definition onopen :: "int \<Rightarrow> client \<Rightarrow> client \<times> clientMsg list" where
  "onopen now c =
     (let c1 = c\<lparr>ws := Some OPEN, reconnectAttempts := 0\<rparr>;
          out = (if mode c1 = ''participant'' \<and> truthy (participantName c1) \<and> \<not> truthy (participantId c1)
                 then rejoinWorkshop c1
                 else if mode c1 = ''master'' then [RequestState] else [])
      in (startHeartbeat now c1, out))"

text \<open>\<open>ws.onclose\<close>, run when the socket has become CLOSED: returns the scheduled delay.\<close>

definition onclose :: "client \<Rightarrow> client \<times> nat" where
  "onclose c = scheduleReconnect (stopHeartbeat (c\<lparr>ws := Some CLOSED\<rparr>))"

text \<open>
  \<open>this.steps[this.currentStepIndex]\<close>: a step when the index is an integer within the
  array, the length of the array (a number) for the key \<open>"length"\<close>, and undefined for
  every other value of the model (an integer outside the array, null, NaN).
\<close>

datatype element = Step step | LengthValue | UndefinedValue

fun stepsAt :: "step list \<Rightarrow> indexValue \<Rightarrow> element" where
  "stepsAt stps (Json (Index i)) =
     (if 0 \<le> i \<and> i < int (length stps) then Step (stps ! nat i) else UndefinedValue)"
| "stepsAt stps (Json LengthKey) = LengthValue"
| "stepsAt stps (Json NullIndex) = UndefinedValue"
| "stepsAt stps NotANumber = UndefinedValue"

definition currentStepOf :: "client \<Rightarrow> element" where
  "currentStepOf c = stepsAt (steps c) (currentStepIndex c)"

text \<open>
  \<open>currentStep.id\<close>: the id of a step, undefined on a number, and a TypeError on
  undefined.
\<close>

fun idOf :: "element \<Rightarrow> jsError + jsId" where
  "idOf (Step st) = Inr (NumId (id_s st))"
| "idOf LengthValue = Inr UndefinedId"
| "idOf UndefinedValue = Inl TypeError"

text \<open>
  The result of a JavaScript division and what follows from it: a number, or \<open>NonFinite\<close>
  for the NaN or infinity that a zero divisor gives.
\<close>

datatype jsNumber = Num real | NonFinite

definition divide_js :: "real \<Rightarrow> real \<Rightarrow> jsNumber" where
  "divide_js a b = (if b = 0 then NonFinite else Num (a / b))"

fun times_js :: "jsNumber \<Rightarrow> real \<Rightarrow> jsNumber" where
  "times_js (Num a) k = Num (a * k)"
| "times_js NonFinite k = NonFinite"

text \<open>\<open>totalCount > 0 ? (completedCount / totalCount) * 100 : 0\<close>\<close>

definition progressPercent :: "nat \<Rightarrow> nat \<Rightarrow> jsNumber" where
  "progressPercent completedCount totalCount =
     (if totalCount > 0 then times_js (divide_js (real completedCount) (real totalCount)) 100
      else Num 0)"

text \<open>
  Rendering writes to the page only. What the model keeps of it is the exception of
  \<open>currentStep.id\<close> when the current step is undefined and, for the participant view,
  the progress percentage it writes: \<open>Inr None\<close> when the guard
  \<open>this.steps.length > 0 && this.participantId\<close> skips the whole computation.
\<close>

definition renderMaster :: "client \<Rightarrow> jsError option" where
  "renderMaster c =
     (if length (steps c) > 0
      then (case idOf (currentStepOf c) of Inl e \<Rightarrow> Some e | Inr i \<Rightarrow> None)
      else None)"

definition renderParticipant :: "client \<Rightarrow> jsError + jsNumber option" where
  "renderParticipant c =
     (if length (steps c) > 0 \<and> truthy (participantId c)
      then (case idOf (currentStepOf c) of
              Inl e \<Rightarrow> Inl e
            | Inr i \<Rightarrow> Inr (Some (progressPercent (length (completedSteps_c c)) (length (steps c)))))
      else Inr None)"

definition render :: "client \<Rightarrow> jsError + jsNumber option" where
  "render c =
     (if mode c = ''master''
      then (case renderMaster c of Some e \<Rightarrow> Inl e | None \<Rightarrow> Inr None)
      else renderParticipant c)"

definition renderError :: "client \<Rightarrow> jsError option" where
  "renderError c = (case render c of Inl e \<Rightarrow> Some e | Inr p \<Rightarrow> None)"

text \<open>The percentage that \<open>render()\<close> writes in a state, if it writes one.\<close>

definition renderedProgress :: "client \<Rightarrow> jsNumber option" where
  "renderedProgress c = (case render c of Inl e \<Rightarrow> None | Inr p \<Rightarrow> p)"

text \<open>\<open>handleWebSocketMessage(data)\<close>: the new mirror and the exception of the render, if any.\<close>

fun handleWebSocketMessage :: "serverMsg \<Rightarrow> client \<Rightarrow> client \<times> jsError option" where
  "handleWebSocketMessage (Joined pid cs) c =
     (let c' = c\<lparr>participantId := Some pid, currentStepIndex := Json cs\<rparr> in (c', renderError c'))"
| "handleWebSocketMessage (ParticipantJoined v) c =
     (c\<lparr>participants_c := AList.update (id_v v) v (participants_c c)\<rparr>, None)"
| "handleWebSocketMessage (ParticipantLeft k) c =
     (c\<lparr>participants_c := AList.delete k (participants_c c)\<rparr>, None)"
| "handleWebSocketMessage (StepCompleted k stepId) c =
     (case map_of (participants_c c) k of
        None \<Rightarrow> (c, None)
      | Some v \<Rightarrow>
          (c\<lparr>participants_c :=
               AList.update k (v\<lparr>completedSteps_v := setAdd stepId (completedSteps_v v)\<rparr>)
                 (participants_c c)\<rparr>, None))"
| "handleWebSocketMessage (StepChanged i) c =
     (let c' = c\<lparr>currentStepIndex := Json i\<rparr> in (c', renderError c'))"
| "handleWebSocketMessage (StateUpdate vs cs) c =
     (let c' = c\<lparr>participants_c := fold (\<lambda>v. AList.update (id_v v) v) vs (participants_c c),
                   currentStepIndex := Json cs\<rparr>
      in (c', renderError c'))"
| "handleWebSocketMessage Pong c = (c, None)"

text \<open>\<open>ws.onmessage\<close>, run at time \<open>now\<close>.\<close>

definition onmessage :: "int \<Rightarrow> serverMsg \<Rightarrow> client \<Rightarrow> client \<times> jsError option" where
  "onmessage now data c =
     (if data = Pong then (c\<lparr>lastPong := now\<rparr>, None) else handleWebSocketMessage data c)"

text \<open>\<open>joinWorkshop()\<close>; the argument is the trimmed content of the name field.\<close>

definition joinWorkshop :: "string \<Rightarrow> client \<Rightarrow> client \<times> clientMsg list" where
  "joinWorkshop nm c =
     (if nm = [] then (c, [])
      else (c\<lparr>participantName := Some nm\<rparr>, if ws c = Some OPEN then [Join nm] else []))"

text \<open>
  \<open>completeCurrentStep()\<close>: the new mirror, the messages sent and the exception, if any.
  The exception of \<open>currentStep.id\<close> comes before any change.
\<close>

definition completeCurrentStep :: "client \<Rightarrow> client \<times> clientMsg list \<times> jsError option" where
  "completeCurrentStep c =
     (if mode c \<noteq> ''participant'' \<or> \<not> truthy (participantId c) \<or> length (steps c) = 0
      then (c, [], None)
      else (case idOf (currentStepOf c) of
              Inl e \<Rightarrow> (c, [], Some e)
            | Inr stepId \<Rightarrow>
                (if stepId \<in> set (completedSteps_c c) then (c, [], None)
                 else (let c' = c\<lparr>completedSteps_c := setAdd stepId (completedSteps_c c)\<rparr>
                       in (c', if ws c' = Some OPEN then [StepComplete stepId] else [],
                           renderError c')))))"

text \<open>
  The arithmetic and the comparisons of the navigation buttons on the values of the
  index: \<open>=== 0\<close>, \<open>--\<close>, \<open>++\<close> and \<open>>=\<close> (the string \<open>"length"\<close> converts to NaN,
  null converts to 0), and \<open>JSON.stringify\<close>, which writes NaN as null.
\<close>

fun strictlyZero :: "indexValue \<Rightarrow> bool" where
  "strictlyZero (Json (Index i)) = (i = 0)"
| "strictlyZero (Json LengthKey) = False"
| "strictlyZero (Json NullIndex) = False"
| "strictlyZero NotANumber = False"

fun decrement :: "indexValue \<Rightarrow> indexValue" where
  "decrement (Json (Index i)) = Json (Index (i - 1))"
| "decrement (Json LengthKey) = NotANumber"
| "decrement (Json NullIndex) = Json (Index (- 1))"
| "decrement NotANumber = NotANumber"

fun increment :: "indexValue \<Rightarrow> indexValue" where
  "increment (Json (Index i)) = Json (Index (i + 1))"
| "increment (Json LengthKey) = NotANumber"
| "increment (Json NullIndex) = Json (Index 1)"
| "increment NotANumber = NotANumber"

fun atLeast_js :: "indexValue \<Rightarrow> int \<Rightarrow> bool" where
  "atLeast_js (Json (Index i)) k = (i \<ge> k)"
| "atLeast_js (Json LengthKey) k = False"
| "atLeast_js (Json NullIndex) k = (0 \<ge> k)"
| "atLeast_js NotANumber k = False"

fun stringify :: "indexValue \<Rightarrow> jsonIndex" where
  "stringify (Json j) = j"
| "stringify NotANumber = NullIndex"

text \<open>
  \<open>previousStepMaster()\<close> and \<open>nextStepMaster()\<close> render before they send: an exception
  of the render skips the send.
\<close>

definition stepChangeAfterRender :: "client \<Rightarrow> client \<times> clientMsg list \<times> jsError option" where
  "stepChangeAfterRender c =
     (case renderError c of
        Some e \<Rightarrow> (c, [], Some e)
      | None \<Rightarrow>
          (c, if ws c = Some OPEN then [StepChange (stringify (currentStepIndex c))] else [], None))"

definition previousStepMaster :: "client \<Rightarrow> client \<times> clientMsg list \<times> jsError option" where
  "previousStepMaster c =
     (if mode c \<noteq> ''master'' \<or> strictlyZero (currentStepIndex c) then (c, [], None)
      else stepChangeAfterRender (c\<lparr>currentStepIndex := decrement (currentStepIndex c)\<rparr>))"

definition nextStepMaster :: "client \<Rightarrow> client \<times> clientMsg list \<times> jsError option" where
  "nextStepMaster c =
     (if mode c \<noteq> ''master'' \<or> atLeast_js (currentStepIndex c) (int (length (steps c)) - 1)
      then (c, [], None)
      else stepChangeAfterRender (c\<lparr>currentStepIndex := increment (currentStepIndex c)\<rparr>))"

text \<open>
  The events of a client: socket events and timers (each with the clock reading its handler
  takes), and the buttons. An event whose handler is not installed or whose timer is not
  running changes nothing.
\<close>

datatype clientEvent =
    SocketOpen int
  | SocketMessage int serverMsg
  | SocketClose
  | HeartbeatTimer int
  | ReconnectTimer
  | JoinButton string
  | CompleteButton
  | PreviousButton
  | NextButton

fun clientStep :: "clientEvent \<Rightarrow> client \<Rightarrow> client" where
  "clientStep (SocketOpen now) c = (if ws c = Some CONNECTING then fst (onopen now c) else c)"
| "clientStep (SocketMessage now data) c =
     (if ws c = Some OPEN \<or> ws c = Some CLOSING then fst (onmessage now data c) else c)"
| "clientStep SocketClose c =
     (if ws c = None \<or> ws c = Some CLOSED then c else fst (onclose c))"
| "clientStep (HeartbeatTimer now) c = (if pingInterval c then fst (heartbeatTick now c) else c)"
| "clientStep ReconnectTimer c = (if reconnectTimeout c = None then c else reconnectTimerFires c)"
| "clientStep (JoinButton nm) c = fst (joinWorkshop nm c)"
| "clientStep CompleteButton c = fst (completeCurrentStep c)"
| "clientStep PreviousButton c = fst (previousStepMaster c)"
| "clientStep NextButton c = fst (nextStepMaster c)"

fun clientRun :: "clientEvent list \<Rightarrow> client \<Rightarrow> client" where
  "clientRun [] c = c"
| "clientRun (e # es) c = clientRun es (clientStep e c)"

text \<open>\<open>init()\<close>: the steps are loaded, then the socket is set up.\<close>

definition startClient :: "string \<Rightarrow> step list \<Rightarrow> client" where
  "startClient m stps = setupWebSocket (newClient m stps)"

text \<open>
  A socket that closes again and again without opening: each round is the \<open>close\<close> event
  of the current socket followed by the reconnect timer. The result lists the scheduled
  delays.
\<close>

fun failedReconnects :: "nat \<Rightarrow> client \<Rightarrow> nat list" where
  "failedReconnects 0 c = []"
| "failedReconnects (Suc n) c =
     snd (onclose c) # failedReconnects n (reconnectTimerFires (fst (onclose c)))"

text \<open>
  An event that is neither a pong nor the close of the socket: between two such events the
  client observes no pong and the connection is not closed from outside.
\<close>

fun noPongNoClose :: "clientEvent \<Rightarrow> bool" where
  "noPongNoClose (SocketMessage now data) = (data \<noteq> Pong)"
| "noPongNoClose SocketClose = False"
| "noPongNoClose (SocketOpen now) = True"
| "noPongNoClose (HeartbeatTimer now) = True"
| "noPongNoClose ReconnectTimer = True"
| "noPongNoClose (JoinButton nm) = True"
| "noPongNoClose CompleteButton = True"
| "noPongNoClose PreviousButton = True"
| "noPongNoClose NextButton = True"

text \<open>An event that brings no step index other than an integer.\<close>

fun isIndex :: "jsonIndex \<Rightarrow> bool" where
  "isIndex (Index i) = True"
| "isIndex LengthKey = False"
| "isIndex NullIndex = False"

fun integerIndex :: "clientEvent \<Rightarrow> bool" where
  "integerIndex (SocketMessage now (Joined pid cs)) = isIndex cs"
| "integerIndex (SocketMessage now (StepChanged i)) = isIndex i"
| "integerIndex (SocketMessage now (StateUpdate vs cs)) = isIndex cs"
| "integerIndex (SocketMessage now (ParticipantJoined v)) = True"
| "integerIndex (SocketMessage now (ParticipantLeft k)) = True"
| "integerIndex (SocketMessage now (StepCompleted k stepId)) = True"
| "integerIndex (SocketMessage now Pong) = True"
| "integerIndex (SocketOpen now) = True"
| "integerIndex SocketClose = True"
| "integerIndex (HeartbeatTimer now) = True"
| "integerIndex ReconnectTimer = True"
| "integerIndex (JoinButton nm) = True"
| "integerIndex CompleteButton = True"
| "integerIndex PreviousButton = True"
| "integerIndex NextButton = True"

text \<open>
  The progress percentage in the words of the specification: completed over total times
  100, clamped to the interval from 0 to 100, and 0 when there are no steps.
\<close>

definition progressSpec :: "nat \<Rightarrow> nat \<Rightarrow> real" where
  "progressSpec completedCount totalSteps =
     (if totalSteps = 0 then 0
      else max 0 (min 100 (real completedCount / real totalSteps * 100)))"

text \<open>
  The invariant of the client mirror while every index it has received is an integer: the
  loaded steps never change, the current index is an integer, and the completed steps are
  distinct ids of loaded steps.
\<close>

fun integerValue :: "indexValue \<Rightarrow> bool" where
  "integerValue (Json j) = isIndex j"
| "integerValue NotANumber = False"

definition mirrorInv :: "step list \<Rightarrow> client \<Rightarrow> bool" where
  "mirrorInv stps c =
     (steps c = stps \<and> integerValue (currentStepIndex c) \<and> distinct (completedSteps_c c) \<and>
      set (completedSteps_c c) \<subseteq> (\<lambda>st. NumId (id_s st)) ` set stps)"

text \<open>
  The invariant of the connection: while the socket is open the heartbeat interval runs,
  and while there is a live socket no reconnect timer is pending.
\<close>

definition heartbeatInv :: "client \<Rightarrow> bool" where
  "heartbeatInv c =
     ((ws c = Some OPEN \<longrightarrow> pingInterval c) \<and>
      (ws c = Some CONNECTING \<or> ws c = Some OPEN \<or> ws c = Some CLOSING \<longrightarrow>
         reconnectTimeout c = None))"

section \<open>Concrete scenarios\<close>

text \<open>A server with two open connections and nobody joined.\<close>

definition twoOpenClients :: server where
  "twoOpenClients =
     \<lparr>participants = [], currentStep = Index 0, clients = [(1, OPEN), (2, OPEN)]\<rparr>"

text \<open>The same server after connection 1 joined as Alice and completed step 2.\<close>

definition aliceJoined :: server where
  "aliceJoined =
     \<lparr>participants =
        [(''a1'', \<lparr>id_p = ''a1'', name_p = ''Alice'', completedSteps = [NumId 2], ws_p = 1\<rparr>)],
      currentStep = Index 0, clients = [(1, OPEN), (2, OPEN)]\<rparr>"

text \<open>A workshop of three steps.\<close>

definition threeSteps :: "step list" where
  "threeSteps =
     [\<lparr>id_s = 1, title = ''Setup'', description = ''Install'', estimatedTime = ''5 min''\<rparr>,
      \<lparr>id_s = 2, title = ''Build'', description = ''Compile'', estimatedTime = ''10 min''\<rparr>,
      \<lparr>id_s = 3, title = ''Ship'', description = ''Deploy'', estimatedTime = ''5 min''\<rparr>]"

text \<open>
  A participant opens the page, joins, and completes the first two steps; a third click
  on a completed step changes nothing.
\<close>

definition aliceSession :: "clientEvent list" where
  "aliceSession =
     [SocketOpen 0, JoinButton ''Alice'', SocketMessage 10 (Joined ''a1'' (Index 0)),
      CompleteButton, SocketMessage 20 (StepChanged (Index 1)), CompleteButton, CompleteButton]"

text \<open>
  The participant goes on to complete the third step; then the server relays a step change
  whose index is the string \<open>"length"\<close>, and the participant clicks once more.
\<close>

definition lengthSession :: "clientEvent list" where
  "lengthSession =
     aliceSession @
     [SocketMessage 30 (StepChanged (Index 2)), CompleteButton,
      SocketMessage 40 (StepChanged LengthKey), CompleteButton]"

text \<open>
  A connection opens at time 0; the heartbeat fires at 5000 and 10000; a pong comes at
  14000; the heartbeat fires at 15000 and 20000.
\<close>

definition latePong :: "clientEvent list" where
  "latePong =
     [SocketOpen 0, HeartbeatTimer 5000, HeartbeatTimer 10000, SocketMessage 14000 Pong,
      HeartbeatTimer 15000, HeartbeatTimer 20000]"

text \<open>
  What follows a pong: the heartbeat fires at 5000 and 10000 and the server sends a step
  change at 12000, but no pong.
\<close>

definition pongThenSilence :: "clientEvent list" where
  "pongThenSilence =
     [HeartbeatTimer 5000, HeartbeatTimer 10000, SocketMessage 12000 (StepChanged (Index 1))]"

section \<open>Server: helper lemmas\<close>

lemma addToFound_present:
  "findInValues ps w = Some p \<Longrightarrow> stepId \<in> set (completedSteps p) \<Longrightarrow> addToFound w stepId ps = ps"
  by (induction ps) (auto simp: setAdd_def)

lemma handleMessage_never_pong: "(w', Pong) \<notin> set (snd (handleMessage newId w data s))"
  by (cases data)
     (auto simp: handleJoin_def handleStepComplete_def handleStepChange_def sendCurrentState_def
        broadcast_def Let_def split: option.splits)

lemma onClose_never_pong: "(w', Pong) \<notin> set (snd (onClose w s))"
  by (auto simp: onClose_def broadcast_def Let_def split: option.splits)

section \<open>Client: helper lemmas\<close>

lemma clientRun_append: "clientRun (xs @ ys) c = clientRun ys (clientRun xs c)"
  by (induction xs arbitrary: c) simp_all

subsection \<open>Reconnecting\<close>

lemma onclose_delay: "snd (onclose c) = min (1000 * 2 ^ reconnectAttempts c) 30000"
  by (simp add: onclose_def scheduleReconnect_def stopHeartbeat_def Let_def)

lemma retry_resets_attempts: "reconnectAttempts (reconnectTimerFires (fst (onclose c))) = 0"
  by (simp add: reconnectTimerFires_def setupWebSocket_def onclose_def scheduleReconnect_def
      stopHeartbeat_def Let_def)

lemma failedReconnects_from_zero:
  "reconnectAttempts c = 0 \<Longrightarrow> failedReconnects n c = replicate n 1000"
proof (induction n arbitrary: c)
  case 0
  show ?case by simp
next
  case (Suc n)
  have "failedReconnects n (reconnectTimerFires (fst (onclose c))) = replicate n 1000"
    by (rule Suc.IH) (rule retry_resets_attempts)
  with Suc.prems show ?case by (simp add: onclose_delay)
qed

lemma onopen_attempts: "reconnectAttempts (fst (onopen now c)) = 0"
  by (simp add: onopen_def startHeartbeat_def stopHeartbeat_def Let_def)

lemma replicate_seven: "replicate 7 x = [x, x, x, x, x, x, x]"
  by (simp add: numeral_eq_Suc)

subsection \<open>What the handlers of the mirror leave alone\<close>

lemma handleWebSocketMessage_conn:
  "ws (fst (handleWebSocketMessage data c)) = ws c \<and>
   pingInterval (fst (handleWebSocketMessage data c)) = pingInterval c \<and>
   reconnectTimeout (fst (handleWebSocketMessage data c)) = reconnectTimeout c \<and>
   lastPong (fst (handleWebSocketMessage data c)) = lastPong c"
  by (cases data) (simp_all add: Let_def split: option.splits)

lemma joinWorkshop_conn:
  "ws (fst (joinWorkshop nm c)) = ws c \<and>
   pingInterval (fst (joinWorkshop nm c)) = pingInterval c \<and>
   reconnectTimeout (fst (joinWorkshop nm c)) = reconnectTimeout c \<and>
   lastPong (fst (joinWorkshop nm c)) = lastPong c"
  by (simp add: joinWorkshop_def)

lemma completeCurrentStep_conn:
  "ws (fst (completeCurrentStep c)) = ws c \<and>
   pingInterval (fst (completeCurrentStep c)) = pingInterval c \<and>
   reconnectTimeout (fst (completeCurrentStep c)) = reconnectTimeout c \<and>
   lastPong (fst (completeCurrentStep c)) = lastPong c"
  by (simp add: completeCurrentStep_def Let_def split: sum.splits)

lemma stepChangeAfterRender_same: "fst (stepChangeAfterRender c) = c"
  by (simp add: stepChangeAfterRender_def split: option.splits)

lemma previousStepMaster_conn:
  "ws (fst (previousStepMaster c)) = ws c \<and>
   pingInterval (fst (previousStepMaster c)) = pingInterval c \<and>
   reconnectTimeout (fst (previousStepMaster c)) = reconnectTimeout c \<and>
   lastPong (fst (previousStepMaster c)) = lastPong c"
  by (simp add: previousStepMaster_def stepChangeAfterRender_same)

lemma nextStepMaster_conn:
  "ws (fst (nextStepMaster c)) = ws c \<and>
   pingInterval (fst (nextStepMaster c)) = pingInterval c \<and>
   reconnectTimeout (fst (nextStepMaster c)) = reconnectTimeout c \<and>
   lastPong (fst (nextStepMaster c)) = lastPong c"
  by (simp add: nextStepMaster_def stepChangeAfterRender_same)

subsection \<open>Heartbeat\<close>

lemma heartbeatInv_conn:
  "heartbeatInv c \<Longrightarrow>
   ws c' = ws c \<and> pingInterval c' = pingInterval c \<and> reconnectTimeout c' = reconnectTimeout c \<and>
   lastPong c' = l \<Longrightarrow> heartbeatInv c'"
  by (simp add: heartbeatInv_def)

lemma heartbeatInv_step: "heartbeatInv c \<Longrightarrow> heartbeatInv (clientStep e c)"
proof (cases e)
  case (SocketOpen now)
  assume "heartbeatInv c"
  then show ?thesis using SocketOpen
    by (simp add: heartbeatInv_def onopen_def startHeartbeat_def stopHeartbeat_def Let_def)
next
  case (SocketMessage now data)
  assume inv: "heartbeatInv c"
  show ?thesis
  proof (cases "data = Pong")
    case True
    with inv SocketMessage show ?thesis by (simp add: heartbeatInv_def onmessage_def)
  next
    case False
    with inv SocketMessage heartbeatInv_conn [OF inv handleWebSocketMessage_conn] show ?thesis
      by (simp add: onmessage_def)
  qed
next
  case SocketClose
  assume "heartbeatInv c"
  then show ?thesis using SocketClose
    by (simp add: heartbeatInv_def onclose_def scheduleReconnect_def stopHeartbeat_def Let_def)
next
  case (HeartbeatTimer now)
  assume "heartbeatInv c"
  then show ?thesis using HeartbeatTimer by (simp add: heartbeatInv_def heartbeatTick_def)
next
  case ReconnectTimer
  assume "heartbeatInv c"
  then show ?thesis using ReconnectTimer
    by (auto simp: heartbeatInv_def reconnectTimerFires_def setupWebSocket_def)
next
  case (JoinButton nm)
  assume inv: "heartbeatInv c"
  show ?thesis using JoinButton heartbeatInv_conn [OF inv joinWorkshop_conn] by simp
next
  case CompleteButton
  assume inv: "heartbeatInv c"
  show ?thesis using CompleteButton heartbeatInv_conn [OF inv completeCurrentStep_conn] by simp
next
  case PreviousButton
  assume inv: "heartbeatInv c"
  show ?thesis using PreviousButton heartbeatInv_conn [OF inv previousStepMaster_conn] by simp
next
  case NextButton
  assume inv: "heartbeatInv c"
  show ?thesis using NextButton heartbeatInv_conn [OF inv nextStepMaster_conn] by simp
qed

lemma heartbeatInv_run: "heartbeatInv c \<Longrightarrow> heartbeatInv (clientRun es c)"
  by (induction es arbitrary: c) (simp_all add: heartbeatInv_step)

lemma heartbeatInv_start: "heartbeatInv (startClient m stps)"
  by (simp add: heartbeatInv_def startClient_def setupWebSocket_def newClient_def)

text \<open>An event that is neither a pong nor a close keeps a live socket live and the last pong.\<close>

lemma quiet_step:
  assumes inv: "heartbeatInv c"
    and live: "ws c = Some OPEN \<or> ws c = Some CLOSING"
    and quiet: "noPongNoClose e"
  shows "(ws (clientStep e c) = Some OPEN \<or> ws (clientStep e c) = Some CLOSING) \<and>
         lastPong (clientStep e c) = lastPong c"
proof (cases e)
  case (SocketOpen now)
  with live show ?thesis by auto
next
  case (SocketMessage now data)
  with quiet have "data \<noteq> Pong" by simp
  with SocketMessage live handleWebSocketMessage_conn [of data c] show ?thesis
    by (auto simp: onmessage_def)
next
  case SocketClose
  with quiet show ?thesis by simp
next
  case (HeartbeatTimer now)
  with live show ?thesis by (auto simp: heartbeatTick_def)
next
  case ReconnectTimer
  with inv live show ?thesis by (auto simp: heartbeatInv_def)
next
  case (JoinButton nm)
  with live joinWorkshop_conn [of nm c] show ?thesis by auto
next
  case CompleteButton
  with live completeCurrentStep_conn [of c] show ?thesis by auto
next
  case PreviousButton
  with live previousStepMaster_conn [of c] show ?thesis by auto
next
  case NextButton
  with live nextStepMaster_conn [of c] show ?thesis by auto
qed

lemma quiet_run:
  "heartbeatInv c \<Longrightarrow> ws c = Some OPEN \<or> ws c = Some CLOSING \<Longrightarrow> list_all noPongNoClose es \<Longrightarrow>
   (ws (clientRun es c) = Some OPEN \<or> ws (clientRun es c) = Some CLOSING) \<and>
   lastPong (clientRun es c) = lastPong c"
proof (induction es arbitrary: c)
  case Nil
  then show ?case by simp
next
  case (Cons e es)
  from Cons.prems have q: "noPongNoClose e" and qs: "list_all noPongNoClose es" by simp_all
  from quiet_step [OF Cons.prems(1) Cons.prems(2) q]
  have live: "ws (clientStep e c) = Some OPEN \<or> ws (clientStep e c) = Some CLOSING"
    and lp: "lastPong (clientStep e c) = lastPong c" by simp_all
  from Cons.IH [OF heartbeatInv_step [OF Cons.prems(1)] live qs] lp show ?case by simp
qed

lemma late_firing_closes:
  assumes "heartbeatInv c" and "ws c = Some OPEN \<or> ws c = Some CLOSING"
    and "lastPong c + 10000 < now"
  shows "ws (clientStep (HeartbeatTimer now) c) = Some CLOSING"
  using assms by (auto simp: heartbeatInv_def heartbeatTick_def)

lemma last_pong_recorded:
  assumes "(ws c = Some OPEN \<and> e = SocketMessage p Pong) \<or> (ws c = Some CONNECTING \<and> e = SocketOpen p)"
  shows "ws (clientStep e c) = Some OPEN \<and> lastPong (clientStep e c) = p"
  using assms
  by (auto simp: onmessage_def onopen_def startHeartbeat_def stopHeartbeat_def Let_def)

lemma close_schedules_reconnect:
  "ws c = Some CLOSING \<Longrightarrow>
   reconnectTimeout (clientStep SocketClose c) = Some (min (1000 * 2 ^ reconnectAttempts c) 30000)"
  by (simp add: onclose_def scheduleReconnect_def stopHeartbeat_def Let_def)

subsection \<open>The mirror invariant\<close>

lemma stepsAt_integer:
  "integerValue v \<Longrightarrow> idOf (stepsAt stps v) = Inr i \<Longrightarrow> i \<in> (\<lambda>st. NumId (id_s st)) ` set stps"
proof (cases v)
  case (Json j)
  assume "integerValue v" and "idOf (stepsAt stps v) = Inr i"
  with Json show ?thesis by (cases j) (auto split: if_splits)
next
  case NotANumber
  assume "integerValue v"
  with NotANumber show ?thesis by simp
qed

lemma integerValue_decrement: "integerValue v \<Longrightarrow> integerValue (decrement v)"
proof (cases v)
  case (Json j)
  assume "integerValue v"
  with Json show ?thesis by (cases j) simp_all
next
  case NotANumber
  assume "integerValue v"
  with NotANumber show ?thesis by simp
qed

lemma integerValue_increment: "integerValue v \<Longrightarrow> integerValue (increment v)"
proof (cases v)
  case (Json j)
  assume "integerValue v"
  with Json show ?thesis by (cases j) simp_all
next
  case NotANumber
  assume "integerValue v"
  with NotANumber show ?thesis by simp
qed

lemma handleWebSocketMessage_inv:
  "mirrorInv stps c \<Longrightarrow> integerIndex (SocketMessage now data) \<Longrightarrow>
   mirrorInv stps (fst (handleWebSocketMessage data c))"
  by (cases data) (simp_all add: mirrorInv_def Let_def split: option.splits)

lemma completeCurrentStep_inv:
  assumes "mirrorInv stps c"
  shows "mirrorInv stps (fst (completeCurrentStep c))"
proof (cases "idOf (currentStepOf c)")
  case (Inl e)
  with assms show ?thesis by (simp add: completeCurrentStep_def)
next
  case (Inr i)
  with assms have "i \<in> (\<lambda>st. NumId (id_s st)) ` set stps"
    using stepsAt_integer [of "currentStepIndex c" "steps c" i]
    by (simp add: mirrorInv_def currentStepOf_def)
  with assms Inr show ?thesis
    by (simp add: completeCurrentStep_def mirrorInv_def setAdd_def Let_def)
qed

lemma previousStepMaster_inv: "mirrorInv stps c \<Longrightarrow> mirrorInv stps (fst (previousStepMaster c))"
  by (simp add: previousStepMaster_def stepChangeAfterRender_same mirrorInv_def
      integerValue_decrement)

lemma nextStepMaster_inv: "mirrorInv stps c \<Longrightarrow> mirrorInv stps (fst (nextStepMaster c))"
  by (simp add: nextStepMaster_def stepChangeAfterRender_same mirrorInv_def
      integerValue_increment)

lemma clientStep_inv:
  "mirrorInv stps c \<Longrightarrow> integerIndex e \<Longrightarrow> mirrorInv stps (clientStep e c)"
proof (cases e)
  case (SocketOpen now)
  assume "mirrorInv stps c"
  then show ?thesis using SocketOpen
    by (simp add: mirrorInv_def onopen_def startHeartbeat_def stopHeartbeat_def Let_def)
next
  case (SocketMessage now data)
  assume inv: "mirrorInv stps c" and "integerIndex e"
  with SocketMessage have ok: "integerIndex (SocketMessage now data)" by simp
  show ?thesis
  proof (cases "data = Pong")
    case True
    with inv SocketMessage show ?thesis by (simp add: mirrorInv_def onmessage_def)
  next
    case False
    with SocketMessage handleWebSocketMessage_inv [OF inv ok] inv show ?thesis
      by (simp add: onmessage_def)
  qed
next
  case SocketClose
  assume "mirrorInv stps c"
  then show ?thesis using SocketClose
    by (simp add: mirrorInv_def onclose_def scheduleReconnect_def stopHeartbeat_def Let_def)
next
  case (HeartbeatTimer now)
  assume "mirrorInv stps c"
  then show ?thesis using HeartbeatTimer by (simp add: mirrorInv_def heartbeatTick_def)
next
  case ReconnectTimer
  assume "mirrorInv stps c"
  then show ?thesis using ReconnectTimer
    by (simp add: mirrorInv_def reconnectTimerFires_def setupWebSocket_def)
next
  case (JoinButton nm)
  assume "mirrorInv stps c"
  then show ?thesis using JoinButton by (simp add: mirrorInv_def joinWorkshop_def)
next
  case CompleteButton
  assume "mirrorInv stps c"
  then show ?thesis using CompleteButton by (simp add: completeCurrentStep_inv)
next
  case PreviousButton
  assume "mirrorInv stps c"
  then show ?thesis using PreviousButton by (simp add: previousStepMaster_inv)
next
  case NextButton
  assume "mirrorInv stps c"
  then show ?thesis using NextButton by (simp add: nextStepMaster_inv)
qed

lemma clientRun_inv:
  "mirrorInv stps c \<Longrightarrow> list_all integerIndex es \<Longrightarrow> mirrorInv stps (clientRun es c)"
  by (induction es arbitrary: c) (simp_all add: clientStep_inv)

lemma startClient_inv: "mirrorInv stps (startClient m stps)"
  by (simp add: startClient_def setupWebSocket_def newClient_def mirrorInv_def)

lemma mirrorInv_count:
  assumes "mirrorInv stps c"
  shows "length (completedSteps_c c) \<le> length (steps c)"
proof -
  have "length (completedSteps_c c) = card (set (completedSteps_c c))"
    using assms by (simp add: mirrorInv_def distinct_card)
  also have "\<dots> \<le> card ((\<lambda>st. NumId (id_s st)) ` set stps)"
    using assms by (simp add: mirrorInv_def card_mono)
  also have "\<dots> \<le> card (set stps)" by (simp add: card_image_le)
  also have "\<dots> \<le> length stps" by (rule card_length)
  finally show ?thesis using assms by (simp add: mirrorInv_def)
qed

subsection \<open>The rendered percentage\<close>

lemma progressPercent_positive:
  "0 < n \<Longrightarrow> progressPercent k n = Num (real k / real n * 100)"
  by (simp add: progressPercent_def divide_js_def)

lemma renderedProgress_guard:
  "renderedProgress c =
     (if mode c \<noteq> ''master'' \<and> 0 < length (steps c) \<and> truthy (participantId c) \<and>
         currentStepOf c \<noteq> UndefinedValue
      then Some (progressPercent (length (completedSteps_c c)) (length (steps c)))
      else None)"
  by (cases "currentStepOf c")
     (simp_all add: renderedProgress_def render_def renderMaster_def renderParticipant_def
        split: sum.splits option.splits)

lemma quotient_within:
  "k \<le> n \<Longrightarrow> 0 < n \<Longrightarrow>
   real k / real n * 100 = progressSpec k n \<and> 0 \<le> real k / real n * 100 \<and>
   real k / real n * 100 \<le> 100"
  by (auto simp: progressSpec_def divide_le_eq)

lemmas server_defs =
  handleJoin_def handleStepComplete_def handleStepChange_def sendCurrentState_def onClose_def
  broadcast_def findParticipantByWs_def publicView_def boundTo_def setAdd_def initialServer_def
  twoOpenClients_def aliceJoined_def Let_def

lemmas client_defs =
  startClient_def newClient_def setupWebSocket_def scheduleReconnect_def reconnectTimerFires_def
  stopHeartbeat_def startHeartbeat_def heartbeatTick_def rejoinWorkshop_def onopen_def onclose_def
  currentStepOf_def progressPercent_def divide_js_def renderMaster_def renderParticipant_def
  render_def renderError_def renderedProgress_def onmessage_def joinWorkshop_def
  completeCurrentStep_def truthy_def setAdd_def threeSteps_def aliceSession_def lengthSession_def
  latePong_def pongThenSilence_def progressSpec_def Let_def

section \<open>Claims about the server\<close>

text \<open>
  Claim C1: for every open connection, when the client sends a ping message the server
  replies with a pong message to that client. What the code does: the \<open>switch\<close> of
  \<open>handleMessage\<close> has no case for \<open>ping\<close>, so a ping changes nothing and sends nothing,
  and no event of the server sends a pong to anybody.
\<close>

theorem ping_gets_no_pong:
  "handleMessage newId w Ping s = (s, []) \<and> (w', Pong) \<notin> set (snd (serverStep e s))"
proof -
  have "(w', Pong) \<notin> set (snd (serverStep e s))"
    by (cases e) (simp_all add: handleMessage_never_pong onClose_never_pong)
  then show ?thesis by simp
qed

text \<open>
  Claim C3: for every join message, the server broadcasts the participant_joined event to
  all connections other than the sender; the sender receives only the unicast joined reply.
  This fails: with connections 1 and 2 open, a join on connection 1 sends participant_joined
  to connection 1 as well.
\<close>

theorem join_sender_gets_participant_joined:
  "(1, ParticipantJoined \<lparr>id_v = ''a1'', name_v = ''Alice'', completedSteps_v = []\<rparr>)
     \<in> set (snd (handleMessage ''a1'' 1 (Join ''Alice'') twoOpenClients))"
  by (simp add: server_defs)

text \<open>
  Claim C3, amended: for every join message, the server sends the joined reply (new id,
  current step) to the sender and then the participant_joined event, carrying id, name and
  the empty list of completed steps, to every open connection in turn, the sender
  included: a sender that is open receives both the reply and the event.
\<close>

theorem join_broadcast_includes_sender:
  "snd (handleMessage newId w (Join nm) s) =
     (w, Joined newId (currentStep s)) #
     map (\<lambda>client. (fst client,
            ParticipantJoined \<lparr>id_v = newId, name_v = nm, completedSteps_v = []\<rparr>))
       (filter (\<lambda>client. snd client = OPEN) (clients s)) \<and>
   ((w, OPEN) \<in> set (clients s) \<longrightarrow>
      (w, ParticipantJoined \<lparr>id_v = newId, name_v = nm, completedSteps_v = []\<rparr>)
        \<in> set (snd (handleMessage newId w (Join nm) s)))"
proof -
  have eq: "snd (handleMessage newId w (Join nm) s) =
     (w, Joined newId (currentStep s)) #
     map (\<lambda>client. (fst client,
            ParticipantJoined \<lparr>id_v = newId, name_v = nm, completedSteps_v = []\<rparr>))
       (filter (\<lambda>client. snd client = OPEN) (clients s))"
    by (simp add: handleJoin_def broadcast_def publicView_def Let_def)
  have "(w, OPEN) \<in> set (clients s) \<Longrightarrow>
      (w, ParticipantJoined \<lparr>id_v = newId, name_v = nm, completedSteps_v = []\<rparr>)
        \<in> set (snd (handleMessage newId w (Join nm) s))"
    unfolding eq by force
  with eq show ?thesis by blast
qed

theorem join_broadcast_includes_sender_witness:
  "(2, OPEN) \<in> set (clients twoOpenClients) \<and>
   snd (handleMessage ''b7'' 2 (Join ''Bob'') twoOpenClients) =
     [(2, Joined ''b7'' (Index 0)),
      (1, ParticipantJoined \<lparr>id_v = ''b7'', name_v = ''Bob'', completedSteps_v = []\<rparr>),
      (2, ParticipantJoined \<lparr>id_v = ''b7'', name_v = ''Bob'', completedSteps_v = []\<rparr>)] \<and>
   (2, ParticipantJoined \<lparr>id_v = ''b7'', name_v = ''Bob'', completedSteps_v = []\<rparr>)
     \<in> set (snd (handleMessage ''b7'' 2 (Join ''Bob'') twoOpenClients))"
proof -
  have h: "(2, OPEN) \<in> set (clients twoOpenClients)"
    by (simp add: twoOpenClients_def)
  show ?thesis
    using h join_broadcast_includes_sender [of "''b7''" 2 "''Bob''" twoOpenClients]
    by (simp add: twoOpenClients_def)
qed

text \<open>
  Claim C4: after every sequence of inbound messages and closes, the registry holds at
  most one participant per connection (two join messages on one connection do not leave
  two entries bound to it), and an id is never reused. What the code does: \<open>handleJoin\<close>
  never looks for a participant already bound to the socket. After two joins on connection
  1 the registry holds two entries bound to it, and when the connection closes the loop of
  the close handler removes the first only: the second stays in the registry, bound to a
  closed connection.
\<close>

theorem second_join_adds_second_entry:
  "boundTo (fst (serverRun [Connect 1, Message ''a1'' 1 (Join ''Alice''),
                            Message ''a2'' 1 (Join ''Alice'')] initialServer)) 1 =
     [(''a1'', \<lparr>id_p = ''a1'', name_p = ''Alice'', completedSteps = [], ws_p = 1\<rparr>),
      (''a2'', \<lparr>id_p = ''a2'', name_p = ''Alice'', completedSteps = [], ws_p = 1\<rparr>)] \<and>
   participants (fst (serverRun [Connect 1, Message ''a1'' 1 (Join ''Alice''),
                                 Message ''a2'' 1 (Join ''Alice''), Close 1] initialServer)) =
     [(''a2'', \<lparr>id_p = ''a2'', name_p = ''Alice'', completedSteps = [], ws_p = 1\<rparr>)]"
  by (simp add: server_defs)

text \<open>
  Claim C6: for every joined participant and every step id, a step_complete message whose
  step id is already in that participant's set of completed steps leaves the set unchanged:
  the whole state of the server is the same after the message.
\<close>

theorem step_complete_idempotent:
  assumes "findParticipantByWs s w = Some p" and "stepId \<in> set (completedSteps p)"
  shows "fst (handleMessage newId w (StepComplete stepId) s) = s"
  using assms
  by (simp add: handleStepComplete_def findParticipantByWs_def addToFound_present Let_def)

theorem step_complete_idempotent_witness:
  "findParticipantByWs aliceJoined 1 =
     Some \<lparr>id_p = ''a1'', name_p = ''Alice'', completedSteps = [NumId 2], ws_p = 1\<rparr> \<and>
   NumId 2 \<in> set (completedSteps \<lparr>id_p = ''a1'', name_p = ''Alice'', completedSteps = [NumId 2], ws_p = 1\<rparr>) \<and>
   fst (handleMessage ''zz'' 1 (StepComplete (NumId 2)) aliceJoined) = aliceJoined"
proof -
  have h1: "findParticipantByWs aliceJoined 1 =
     Some \<lparr>id_p = ''a1'', name_p = ''Alice'', completedSteps = [NumId 2], ws_p = 1\<rparr>"
    by (simp add: findParticipantByWs_def aliceJoined_def)
  have h2: "NumId 2 \<in> set (completedSteps
     \<lparr>id_p = ''a1'', name_p = ''Alice'', completedSteps = [NumId 2], ws_p = 1\<rparr>)"
    by simp
  from step_complete_idempotent [OF h1 h2, of "''zz''"] h1 h2 show ?thesis by simp
qed

text \<open>
  Claim C7: a step_complete message on a connection that has no participant bound to it is
  silently ignored: the state of the server (participants, every set of completed steps,
  current step) is unchanged, and nothing is sent to anybody, neither an event nor an
  error.
\<close>

theorem step_complete_unjoined_ignored:
  assumes "findParticipantByWs s w = None"
  shows "handleMessage newId w (StepComplete stepId) s = (s, [])"
  using assms by (simp add: handleStepComplete_def)

theorem step_complete_unjoined_ignored_witness:
  "findParticipantByWs aliceJoined 2 = None \<and>
   handleMessage ''zz'' 2 (StepComplete (NumId 3)) aliceJoined = (aliceJoined, [])"
proof -
  have h: "findParticipantByWs aliceJoined 2 = None"
    by (simp add: findParticipantByWs_def aliceJoined_def)
  from step_complete_unjoined_ignored [OF h, of "''zz''" "NumId 3"] h show ?thesis by simp
qed

text \<open>
  Claim C8: for every step_change message and every integer step index, negative or past
  the end included, the server overwrites the current step with the received index without
  any check, and broadcasts step_changed with that index to every open connection. The
  same holds of every value of the index that the model covers.
\<close>

theorem step_change_unconditional:
  "currentStep (fst (handleMessage newId w (StepChange stepIndex) s)) = stepIndex \<and>
   fst (handleMessage newId w (StepChange stepIndex) s) = s\<lparr>currentStep := stepIndex\<rparr> \<and>
   snd (handleMessage newId w (StepChange stepIndex) s) =
     map (\<lambda>client. (fst client, StepChanged stepIndex))
       (filter (\<lambda>client. snd client = OPEN) (clients s))"
  by (simp add: handleStepChange_def broadcast_def Let_def)

theorem step_change_unconditional_witness:
  "currentStep (fst (handleMessage ''zz'' 1 (StepChange (Index (- 5))) aliceJoined)) = Index (- 5) \<and>
   snd (handleMessage ''zz'' 1 (StepChange (Index (- 5))) aliceJoined) =
     [(1, StepChanged (Index (- 5))), (2, StepChanged (Index (- 5)))]"
  using step_change_unconditional [of "''zz''" 1 "Index (- 5)" aliceJoined]
  by (simp add: aliceJoined_def)

text \<open>
  Claim C10: the server applies a step_change message from any connection, joined or not,
  master or not: the outcome (current step overwritten, step_changed broadcast) does not
  depend on the sender.
\<close>

theorem step_change_any_sender:
  "handleMessage newId w (StepChange stepIndex) s =
     (s\<lparr>currentStep := stepIndex\<rparr>,
      broadcast (StepChanged stepIndex) None (s\<lparr>currentStep := stepIndex\<rparr>)) \<and>
   handleMessage newId w (StepChange stepIndex) s =
     handleMessage newId' w' (StepChange stepIndex) s"
  by (simp add: handleStepChange_def Let_def)

theorem step_change_any_sender_witness:
  "findParticipantByWs aliceJoined 2 = None \<and>
   handleMessage ''zz'' 2 (StepChange (Index 7)) aliceJoined =
     (aliceJoined\<lparr>currentStep := Index 7\<rparr>, [(1, StepChanged (Index 7)), (2, StepChanged (Index 7))]) \<and>
   handleMessage ''zz'' 2 (StepChange (Index 7)) aliceJoined =
     handleMessage ''yy'' 1 (StepChange (Index 7)) aliceJoined"
  using step_change_any_sender [of "''zz''" 2 "Index 7" aliceJoined "''yy''" 1]
  by (simp add: findParticipantByWs_def broadcast_def handleStepChange_def aliceJoined_def)

section \<open>Claims about the client\<close>

text \<open>
  Claim C2: for a client whose connection closes repeatedly without reaching a successful
  open in between, the scheduled reconnect delays are 1000, 2000, 4000, 8000, 16000,
  30000, 30000, ... milliseconds. What the code does: \<open>setupWebSocket\<close> sets
  \<open>reconnectAttempts\<close> to 0 whenever it creates a socket, so every retry starts from 0
  again and every scheduled delay is 1000 ms.
\<close>

theorem reconnect_delays_stay_at_base:
  "failedReconnects n (fst (onopen now c)) = replicate n 1000 \<and>
   failedReconnects 7 (fst (onopen now c)) \<noteq> [1000, 2000, 4000, 8000, 16000, 30000, 30000]"
proof -
  have g: "\<And>k. failedReconnects k (fst (onopen now c)) = replicate k 1000"
    by (rule failedReconnects_from_zero) (rule onopen_attempts)
  have "replicate 7 (1000::nat) \<noteq> [1000, 2000, 4000, 8000, 16000, 30000, 30000]"
    by (simp add: replicate_seven)
  with g show ?thesis by simp
qed

text \<open>
  Claim C5: for every open client connection, if no pong has been observed within 10000 ms
  of the last observed pong, the client initiates a close-and-reconnect cycle. This fails:
  the age of the last pong is tested only when the heartbeat fires, every 5000 ms, against
  the latest pong. A connection opens at time 0 (which counts as the first pong), the
  heartbeat fires at 5000 and 10000, and a pong comes at 14000, later than 10000 ms after
  the last one: the firings at 15000 and 20000 find a fresh pong, the client has not called
  close and no reconnect is scheduled.
\<close>

theorem late_pong_keeps_connection_open:
  "ws (clientRun latePong (startClient ''participant'' threeSteps)) = Some OPEN \<and>
   reconnectTimeout (clientRun latePong (startClient ''participant'' threeSteps)) = None \<and>
   lastPong (clientRun latePong (startClient ''participant'' threeSteps)) = 14000"
  by (simp add: client_defs)

text \<open>
  Claim C5, amended: for every open client connection, let \<open>p\<close> be the time of the last
  observed pong, or of the open when no pong has come yet. If no pong is observed and the
  socket is not closed from outside between that moment and a firing of the heartbeat
  that comes more than 10000 ms after \<open>p\<close>, then by that firing the client has called
  close on the socket, and the close event of the socket schedules the reconnect.
\<close>

theorem heartbeat_closes_after_silence:
  assumes "c = clientRun es0 (startClient m stps)"
    and "(ws c = Some OPEN \<and> e = SocketMessage p Pong) \<or> (ws c = Some CONNECTING \<and> e = SocketOpen p)"
    and "list_all noPongNoClose es"
    and "p + 10000 < now"
  shows "ws (clientRun (e # es @ [HeartbeatTimer now]) c) = Some CLOSING \<and>
         reconnectTimeout (clientRun (e # es @ [HeartbeatTimer now, SocketClose]) c) \<noteq> None"
proof -
  have inv: "heartbeatInv c"
    unfolding assms(1) by (rule heartbeatInv_run) (rule heartbeatInv_start)
  have inv1: "heartbeatInv (clientStep e c)"
    using inv by (rule heartbeatInv_step)
  from last_pong_recorded [OF assms(2)]
  have open1: "ws (clientStep e c) = Some OPEN" and lp1: "lastPong (clientStep e c) = p"
    by simp_all
  from open1 have live1: "ws (clientStep e c) = Some OPEN \<or> ws (clientStep e c) = Some CLOSING"
    by simp
  from quiet_run [OF inv1 live1 assms(3)] lp1
  have live2: "ws (clientRun es (clientStep e c)) = Some OPEN \<or>
               ws (clientRun es (clientStep e c)) = Some CLOSING"
    and lp2: "lastPong (clientRun es (clientStep e c)) = p"
    by simp_all
  have inv2: "heartbeatInv (clientRun es (clientStep e c))"
    using inv1 by (rule heartbeatInv_run)
  from lp2 assms(4) have late: "lastPong (clientRun es (clientStep e c)) + 10000 < now"
    by simp
  have closing: "ws (clientStep (HeartbeatTimer now) (clientRun es (clientStep e c))) = Some CLOSING"
    using inv2 live2 late by (rule late_firing_closes)
  have run1: "clientRun (e # es @ [HeartbeatTimer now]) c =
                clientStep (HeartbeatTimer now) (clientRun es (clientStep e c))"
    by (simp add: clientRun_append)
  have run2: "clientRun (e # es @ [HeartbeatTimer now, SocketClose]) c =
                clientStep SocketClose
                  (clientStep (HeartbeatTimer now) (clientRun es (clientStep e c)))"
    by (simp add: clientRun_append)
  from close_schedules_reconnect [OF closing]
  have "reconnectTimeout (clientRun (e # es @ [HeartbeatTimer now, SocketClose]) c) \<noteq> None"
    unfolding run2 by simp
  with closing run1 show ?thesis by simp
qed

theorem heartbeat_closes_after_silence_witness:
  "ws (clientRun [SocketOpen 0] (startClient ''participant'' threeSteps)) = Some OPEN \<and>
   list_all noPongNoClose pongThenSilence \<and>
   (1000::int) + 10000 < 15000 \<and>
   ws (clientRun (SocketMessage 1000 Pong # pongThenSilence @ [HeartbeatTimer 15000])
         (clientRun [SocketOpen 0] (startClient ''participant'' threeSteps))) = Some CLOSING \<and>
   ws (startClient ''participant'' threeSteps) = Some CONNECTING \<and>
   ws (clientRun (SocketOpen 0 # pongThenSilence @ [HeartbeatTimer 15000])
         (startClient ''participant'' threeSteps)) = Some CLOSING"
proof -
  have r1: "clientRun [SocketOpen 0] (startClient ''participant'' threeSteps) =
              clientRun [SocketOpen 0] (startClient ''participant'' threeSteps)"
    by simp
  have o1: "ws (clientRun [SocketOpen 0] (startClient ''participant'' threeSteps)) = Some OPEN"
    by (simp add: client_defs)
  have q: "list_all noPongNoClose pongThenSilence"
    by (simp add: pongThenSilence_def)
  have t1: "(1000::int) + 10000 < 15000"
    by simp
  have d1: "(ws (clientRun [SocketOpen 0] (startClient ''participant'' threeSteps)) = Some OPEN \<and>
             SocketMessage 1000 Pong = SocketMessage 1000 Pong) \<or>
            (ws (clientRun [SocketOpen 0] (startClient ''participant'' threeSteps)) = Some CONNECTING \<and>
             SocketMessage 1000 Pong = SocketOpen 1000)"
    using o1 by simp
  have r2: "startClient ''participant'' threeSteps = clientRun [] (startClient ''participant'' threeSteps)"
    by simp
  have o2: "ws (startClient ''participant'' threeSteps) = Some CONNECTING"
    by (simp add: client_defs)
  have t2: "(0::int) + 10000 < 15000"
    by simp
  have d2: "(ws (startClient ''participant'' threeSteps) = Some OPEN \<and>
             SocketOpen 0 = SocketMessage 0 Pong) \<or>
            (ws (startClient ''participant'' threeSteps) = Some CONNECTING \<and>
             SocketOpen 0 = SocketOpen 0)"
    using o2 by simp
  from heartbeat_closes_after_silence [OF r1 d1 q t1]
       heartbeat_closes_after_silence [OF r2 d2 q t2] o1 o2 q
  show ?thesis by simp
qed

text \<open>
  Claim C9: for every state of the client mirror reachable through the operations of the
  participant view, the derived progress percentage equals completed count over total
  steps times 100 clamped to the interval from 0 to 100, and equals 0 when there are no
  steps. This fails: the percentage is not clamped. The participant completes the three
  steps of the workshop; the server relays a step change whose index is the string
  \<open>"length"\<close>; \<open>this.steps["length"]\<close> is the number 3, whose \<open>id\<close> is undefined, so
  the next click adds undefined to the set of completed steps: four completed out of
  three, and the view writes 400/3 percent where the clamped value is 100.
\<close>

theorem length_index_exceeds_hundred:
  "completedSteps_c (clientRun lengthSession (startClient ''participant'' threeSteps)) =
     [NumId 1, NumId 2, NumId 3, UndefinedId] \<and>
   renderedProgress (clientRun lengthSession (startClient ''participant'' threeSteps)) =
     Some (Num (400 / 3)) \<and>
   progressSpec 4 3 = 100 \<and> (100::real) < 400 / 3"
  by (simp add: client_defs)

text \<open>
  Claim C9, amended: for every state of the client mirror reached through events that
  brought no step index other than an integer, the participant view writes a progress
  percentage exactly when it is not the master view, there is at least one step, the
  participant id is set and the current step is defined; the percentage is then completed
  count over total steps times 100, which lies between 0 and 100 and so equals its clamped
  value. When there are no steps no percentage is computed and nothing is divided. The
  percentage is the exact quotient here; the source computes it in double precision.
\<close>

theorem progress_within_bounds_for_integer_indices:
  assumes "list_all integerIndex es" and "c = clientRun es (startClient m stps)"
  shows "renderedProgress c =
           (if mode c \<noteq> ''master'' \<and> 0 < length (steps c) \<and> truthy (participantId c) \<and>
               currentStepOf c \<noteq> UndefinedValue
            then Some (Num (real (length (completedSteps_c c)) / real (length (steps c)) * 100))
            else None) \<and>
         (0 < length (steps c) \<longrightarrow>
            real (length (completedSteps_c c)) / real (length (steps c)) * 100 =
              progressSpec (length (completedSteps_c c)) (length (steps c)) \<and>
            0 \<le> real (length (completedSteps_c c)) / real (length (steps c)) * 100 \<and>
            real (length (completedSteps_c c)) / real (length (steps c)) * 100 \<le> 100) \<and>
         (length (steps c) = 0 \<longrightarrow> renderedProgress c = None)"
proof -
  have "mirrorInv stps c"
    unfolding assms(2) using startClient_inv assms(1) by (rule clientRun_inv)
  then have le: "length (completedSteps_c c) \<le> length (steps c)"
    by (rule mirrorInv_count)
  have shown: "renderedProgress c =
           (if mode c \<noteq> ''master'' \<and> 0 < length (steps c) \<and> truthy (participantId c) \<and>
               currentStepOf c \<noteq> UndefinedValue
            then Some (Num (real (length (completedSteps_c c)) / real (length (steps c)) * 100))
            else None)"
    by (simp add: renderedProgress_guard progressPercent_positive)
  have bounds: "0 < length (steps c) \<longrightarrow>
            real (length (completedSteps_c c)) / real (length (steps c)) * 100 =
              progressSpec (length (completedSteps_c c)) (length (steps c)) \<and>
            0 \<le> real (length (completedSteps_c c)) / real (length (steps c)) * 100 \<and>
            real (length (completedSteps_c c)) / real (length (steps c)) * 100 \<le> 100"
    using quotient_within [OF le] by blast
  have none: "length (steps c) = 0 \<longrightarrow> renderedProgress c = None"
    by (simp add: renderedProgress_guard)
  from shown bounds none show ?thesis by blast
qed

theorem progress_within_bounds_for_integer_indices_witness:
  "list_all integerIndex aliceSession \<and>
   completedSteps_c (clientRun aliceSession (startClient ''participant'' threeSteps)) =
     [NumId 1, NumId 2] \<and>
   renderedProgress (clientRun aliceSession (startClient ''participant'' threeSteps)) =
     Some (Num (200 / 3)) \<and>
   progressSpec 2 3 = 200 / 3 \<and>
   length (steps (clientRun aliceSession (startClient ''participant'' []))) = 0 \<and>
   renderedProgress (clientRun aliceSession (startClient ''participant'' [])) = None"
proof -
  have ok: "list_all integerIndex aliceSession"
    by (simp add: aliceSession_def)
  have r1: "clientRun aliceSession (startClient ''participant'' threeSteps) =
              clientRun aliceSession (startClient ''participant'' threeSteps)"
    by simp
  have r2: "clientRun aliceSession (startClient ''participant'' []) =
              clientRun aliceSession (startClient ''participant'' [])"
    by simp
  have cs: "completedSteps_c (clientRun aliceSession (startClient ''participant'' threeSteps)) =
              [NumId 1, NumId 2]"
    by (simp add: client_defs)
  have lc: "length (completedSteps_c (clientRun aliceSession (startClient ''participant'' threeSteps))) = 2"
    by (simp add: cs)
  have st: "length (steps (clientRun aliceSession (startClient ''participant'' threeSteps))) = 3"
    by (simp add: client_defs)
  have rp: "renderedProgress (clientRun aliceSession (startClient ''participant'' threeSteps)) =
              Some (Num (200 / 3))"
    by (simp add: client_defs)
  have none: "length (steps (clientRun aliceSession (startClient ''participant'' []))) = 0"
    by (simp add: client_defs)
  from progress_within_bounds_for_integer_indices [OF ok r1]
  have "real (2::nat) / real (3::nat) * 100 = progressSpec 2 3"
    by (simp add: lc st)
  then have sp: "progressSpec 2 3 = 200 / 3"
    by simp
  from progress_within_bounds_for_integer_indices [OF ok r2] none
  have "renderedProgress (clientRun aliceSession (startClient ''participant'' [])) = None"
    by blast
  with ok cs rp sp none show ?thesis by simp
qed

end
